theory Spec2Isabelle
  imports Main "HOL-Library.Char_ord" "HOL-Library.List_Lexorder"
begin

text \<open>
  A shallow embedding of \<^verbatim>\<open>deno_index.ts\<close>, a reverse proxy that selects an upstream API by
  the first segment of the request path: the route table, the router
  \<^verbatim>\<open>extractPrefixAndRest\<close>, the filter of the request headers, and the handler passed to
  \<^verbatim>\<open>serve\<close>.  The handler is a function of the request and of the behaviour of \<^verbatim>\<open>fetch\<close>;
  it returns the response together with the outbound calls it issued.
\<close>

section \<open>The route table\<close>

text \<open>
  \<^verbatim>\<open>const apiMapping = { '/mistral': 'https://api.mistral.ai', ... }\<close>
  (deno_index.ts, lines 4-21).  An object literal whose keys are not integer-like keeps
  its properties in insertion order, so the table is an association list in declaration
  order; \<^verbatim>\<open>Object.keys\<close> returns the keys in that order.
\<close>

definition apiMapping :: "(string \<times> string) list" where
  "apiMapping =
    [(''/mistral'', ''https://api.mistral.ai''),
     (''/discord'', ''https://discord.com/api''),
     (''/telegram'', ''https://api.telegram.org''),
     (''/openai'', ''https://api.openai.com''),
     (''/claude'', ''https://api.anthropic.com''),
     (''/gemini'', ''https://generativelanguage.googleapis.com''),
     (''/meta'', ''https://www.meta.ai/api''),
     (''/groq'', ''https://api.groq.com/openai''),
     (''/xai'', ''https://api.x.ai''),
     (''/cohere'', ''https://api.cohere.ai''),
     (''/huggingface'', ''https://api-inference.huggingface.co''),
     (''/together'', ''https://api.together.xyz''),
     (''/novita'', ''https://api.novita.ai''),
     (''/portkey'', ''https://api.portkey.ai''),
     (''/fireworks'', ''https://api.fireworks.ai''),
     (''/openrouter'', ''https://openrouter.ai/api'')]"

definition Object_keys :: "(string \<times> string) list \<Rightarrow> string list" where
  "Object_keys obj = map fst obj"

section \<open>String primitives\<close>

text \<open>
  \<^verbatim>\<open>s.startsWith(p)\<close>: the first \<open>p.length\<close> code units of \<open>s\<close> are those of \<open>p\<close>.
  \<^verbatim>\<open>s.slice(n)\<close> for \<open>0 \<le> n\<close>: the code units from position \<open>n\<close> on, the empty string
  when \<open>n\<close> is past the end.  The strings here are the path of a parsed URL and the
  keys of the table, which are ASCII, so a code unit is a \<open>char\<close>.
\<close>

fun startsWith :: "string \<Rightarrow> string \<Rightarrow> bool" where
  "startsWith s [] = True"
| "startsWith [] (c # cs) = False"
| "startsWith (x # xs) (c # cs) = (x = c \<and> startsWith xs cs)"

definition slice :: "string \<Rightarrow> nat \<Rightarrow> string" where
  "slice s n = drop n s"

section \<open>The router\<close>

text \<open>
  \<^verbatim>\<open>function extractPrefixAndRest(pathname, prefixes): [string | null, string | null]\<close>
  (lines 135-149).  The \<^verbatim>\<open>for\<close> loop over \<open>prefixes\<close> is the recursion over the list;
  \<^verbatim>\<open>null\<close> is \<open>None\<close>.
\<close>

fun extractPrefixAndRest :: "string \<Rightarrow> string list \<Rightarrow> string option \<times> string option" where
  "extractPrefixAndRest pathname [] = (None, None)"
| "extractPrefixAndRest pathname (prefix # prefixes) =
     (if startsWith pathname prefix then
        (let rest = slice pathname (length prefix) in
         if length rest = 0 \<or> startsWith rest ''/'' then (Some prefix, Some rest)
         else extractPrefixAndRest pathname prefixes)
      else extractPrefixAndRest pathname prefixes)"

text \<open>
  The rule of the specification, in its own words: a prefix is accepted for a path when
  the path starts with the prefix literally and the remainder (the path with the prefix
  removed) is empty or starts with a slash.  The specified router returns the first
  accepted prefix of the table, with the remainder, or signals no match.
\<close>

definition spec_accepts :: "string \<Rightarrow> string \<Rightarrow> bool" where
  "spec_accepts path prefix =
     (take (length prefix) path = prefix \<and>
      (case drop (length prefix) path of [] \<Rightarrow> True | c # _ \<Rightarrow> c = CHR ''/''))"

definition spec_router :: "string \<Rightarrow> string list \<Rightarrow> string option \<times> string option" where
  "spec_router path table =
     (case find (spec_accepts path) table of
        None \<Rightarrow> (None, None)
      | Some prefix \<Rightarrow> (Some prefix, Some (drop (length prefix) path)))"

section \<open>The platform: header lists\<close>

text \<open>
  The program runs on Deno and uses the classes \<^verbatim>\<open>Headers\<close> and \<^verbatim>\<open>Response\<close> of the Fetch
  standard.  A \<^verbatim>\<open>Headers\<close> object holds a header list: name-value pairs in insertion
  order, where names are compared byte-case-insensitively.  Names and values are byte
  strings, so \<open>char\<close> is the right element type.  The operations below are the ones
  the program calls, as the Fetch standard defines them on a header list.

  \<^verbatim>\<open>set\<close> and \<^verbatim>\<open>append\<close> first normalise the value, that is, strip its leading and trailing
  HTTP whitespace, and then validate the name and the value.  The normalisation is
  modelled: it changes a combined value that begins or ends with whitespace, which
  arises when the first or the last of several headers of one name is empty.  The
  validation is not: every name and value the program hands to \<^verbatim>\<open>set\<close> comes out of a
  \<^verbatim>\<open>Headers\<close> object, whose names and values have passed it and still pass it after
  combination and normalisation, or is a literal that passes it.
\<close>

text \<open>
  \<^verbatim>\<open>key.toLowerCase()\<close> on a header name.  Header names are ASCII tokens; the letters
  \<open>A\<close> to \<open>Z\<close> (65 to 90) move to \<open>a\<close> to \<open>z\<close> and every other byte stays.  The
  standard's byte-lowercasing of names is the same function.
\<close>

definition lower_char :: "char \<Rightarrow> char" where
  "lower_char c =
     (let n = of_char c :: nat in if 65 \<le> n \<and> n \<le> 90 then char_of (n + 32) else c)"

definition toLowerCase :: "string \<Rightarrow> string" where
  "toLowerCase s = map lower_char s"

type_synonym header = "string \<times> string"
type_synonym Headers = "header list"

text \<open>The values stored under a name, in list order, and their combination with \<open>", "\<close>.\<close>

definition values_of :: "Headers \<Rightarrow> string \<Rightarrow> string list" where
  "values_of list name =
     map snd (filter (\<lambda>(k, v). toLowerCase k = toLowerCase name) list)"

fun join_values :: "string list \<Rightarrow> string" where
  "join_values [] = []"
| "join_values [v] = v"
| "join_values (v # w # vs) = v @ '', '' @ join_values (w # vs)"

text \<open>
  Normalisation of a header value: the HTTP whitespace bytes are tab, line feed, carriage
  return and space; they are removed from both ends.
\<close>

definition http_whitespace :: "char \<Rightarrow> bool" where
  "http_whitespace c = (c = CHR 0x09 \<or> c = CHR 0x0A \<or> c = CHR 0x0D \<or> c = CHR 0x20)"

definition normalize_value :: "string \<Rightarrow> string" where
  "normalize_value v =
     rev (dropWhile http_whitespace (rev (dropWhile http_whitespace v)))"

text \<open>\<^verbatim>\<open>headers.has(name)\<close> and \<^verbatim>\<open>headers.get(name)\<close>; \<^verbatim>\<open>get\<close> returns \<^verbatim>\<open>null\<close> for an absent name.\<close>

definition Headers_has :: "Headers \<Rightarrow> string \<Rightarrow> bool" where
  "Headers_has list name = (values_of list name \<noteq> [])"

definition Headers_get :: "Headers \<Rightarrow> string \<Rightarrow> string option" where
  "Headers_get list name =
     (if Headers_has list name then Some (join_values (values_of list name)) else None)"

text \<open>
  \<^verbatim>\<open>headers.set(name, value)\<close>: the value is normalised; when the list contains the name,
  the first such header gets the value (and keeps its own spelling of the name) and the
  others are removed; otherwise the pair is appended.
\<close>

fun replace_first :: "Headers \<Rightarrow> string \<Rightarrow> string \<Rightarrow> Headers" where
  "replace_first [] name value = []"
| "replace_first ((k, v) # rest) name value =
     (if toLowerCase k = toLowerCase name
      then (k, value) # filter (\<lambda>(k', v'). toLowerCase k' \<noteq> toLowerCase name) rest
      else (k, v) # replace_first rest name value)"

definition Headers_set :: "Headers \<Rightarrow> string \<Rightarrow> string \<Rightarrow> Headers" where
  "Headers_set list name value =
     (let v = normalize_value value in
      if Headers_has list name then replace_first list name v
      else list @ [(name, v)])"

text \<open>
  \<^verbatim>\<open>headers.append(name, value)\<close>, used by the constructors when they fill a fresh
  object: the value is normalised and the pair goes to the end, under the spelling of the
  first header of that name when there is one.
\<close>

definition Headers_append :: "Headers \<Rightarrow> string \<Rightarrow> string \<Rightarrow> Headers" where
  "Headers_append list name value =
     (let v = normalize_value value in
      case find (\<lambda>(k, v'). toLowerCase k = toLowerCase name) list of
        None \<Rightarrow> list @ [(name, v)]
      | Some (k, v') \<Rightarrow> list @ [(k, v)])"

text \<open>
  \<^verbatim>\<open>headers.entries()\<close>, the iteration of a \<^verbatim>\<open>Headers\<close> object ("sort and combine"): the
  names are lowercased, made unique and sorted by code unit; each name is paired with
  its combined value, except \<open>set-cookie\<close>, whose values are listed one by one.
\<close>

definition entries_of_name :: "Headers \<Rightarrow> string \<Rightarrow> header list" where
  "entries_of_name list name =
     (if name = ''set-cookie'' then map (Pair name) (values_of list name)
      else [(name, join_values (values_of list name))])"

definition Headers_entries :: "Headers \<Rightarrow> header list" where
  "Headers_entries list =
     concat (map (entries_of_name list)
                 (sort (remdups (map (\<lambda>(k, v). toLowerCase k) list))))"

text \<open>
  What a constructor accepts for headers: nothing, an object literal (a record of
  name-value pairs, in property order), or a \<^verbatim>\<open>Headers\<close> object, which is read through its
  iteration.  \<^verbatim>\<open>new Headers(init)\<close> fills an empty list by appending every pair.
\<close>

datatype HeadersInit = NoHeaders | FromRecord "header list" | FromHeaders Headers

fun fill :: "Headers \<Rightarrow> header list \<Rightarrow> Headers" where
  "fill list [] = list"
| "fill list ((k, v) # pairs) = fill (Headers_append list k v) pairs"

fun new_Headers :: "HeadersInit \<Rightarrow> Headers" where
  "new_Headers NoHeaders = []"
| "new_Headers (FromRecord pairs) = fill [] pairs"
| "new_Headers (FromHeaders h) = fill [] (Headers_entries h)"

section \<open>The platform: responses\<close>

text \<open>
  A body is read as the byte string it carries; \<^verbatim>\<open>null\<close> is \<open>None\<close>.  The \<^verbatim>\<open>Response\<close>
  constructor takes a string, which has the type \<open>text/plain;charset=UTF-8\<close>, or a
  stream, which has no type.
\<close>

type_synonym stream = string

datatype BodyInit = StringBody string | StreamBody stream

fun body_stream :: "BodyInit \<Rightarrow> stream" where
  "body_stream (StringBody s) = s"
| "body_stream (StreamBody s) = s"

fun body_type :: "BodyInit \<Rightarrow> string option" where
  "body_type (StringBody s) = Some ''text/plain;charset=UTF-8''"
| "body_type (StreamBody s) = None"

text \<open>
  What a platform call throws: the two errors of the constructor, and anything else, which
  stands for every way in which \<^verbatim>\<open>fetch\<close> can fail.
\<close>

datatype exn = RangeError | TypeError | OtherError string

record Response =
  status :: nat
  statusText :: string
  headers :: Headers
  body :: "stream option"

record ResponseInit =
  init_status :: nat
  init_statusText :: string
  init_headers :: HeadersInit

text \<open>
  \<^verbatim>\<open>new Response(body, init)\<close>, the standard's "initialize a response": the status is
  converted to an unsigned short, that is, taken modulo 65536; a status outside 200 to
  599 is then a \<^verbatim>\<open>RangeError\<close> (Deno also takes 101); a status text that is not a
  reason phrase (tab, space, visible ASCII or a byte from 128 on) is a \<^verbatim>\<open>TypeError\<close>; the
  headers are filled from \<open>init\<close>; a body on a null-body status (101, 103, 204, 205,
  304) is a \<^verbatim>\<open>TypeError\<close>; a body with a type adds \<open>Content-Type\<close> unless the headers
  have one.  Where the program leaves \<^verbatim>\<open>statusText\<close> or \<^verbatim>\<open>headers\<close> out of \<open>init\<close>, the
  defaults are the empty string and no headers.
\<close>

definition reason_phrase :: "string \<Rightarrow> bool" where
  "reason_phrase s =
     list_all (\<lambda>c. let n = of_char c :: nat in n = 9 \<or> (32 \<le> n \<and> n \<le> 126) \<or> 128 \<le> n) s"

definition null_body_status :: "nat \<Rightarrow> bool" where
  "null_body_status n = (n = 101 \<or> n = 103 \<or> n = 204 \<or> n = 205 \<or> n = 304)"

definition new_Response :: "BodyInit option \<Rightarrow> ResponseInit \<Rightarrow> exn + Response" where
  "new_Response b init =
     (let st = init_status init mod 65536 in
      if (st < 200 \<or> 599 < st) \<and> st \<noteq> 101 then Inl RangeError
      else if \<not> reason_phrase (init_statusText init) then Inl TypeError
      else
        (let hs = new_Headers (init_headers init) in
         case b of
           None \<Rightarrow>
             Inr \<lparr>status = st, statusText = init_statusText init, headers = hs, body = None\<rparr>
         | Some bi \<Rightarrow>
             if null_body_status st then Inl TypeError
             else
               Inr \<lparr>status = st, statusText = init_statusText init,
                    headers =
                      (case body_type bi of
                         None \<Rightarrow> hs
                       | Some t \<Rightarrow>
                           if Headers_has hs ''Content-Type'' then hs
                           else Headers_append hs ''Content-Type'' t),
                    body = Some (body_stream bi)\<rparr>))"

section \<open>The request handler\<close>

text \<open>
  The inbound request as the handler reads it: the method, the path and the query
  string of \<^verbatim>\<open>new URL(request.url)\<close>, the headers and the body.  An outbound call is the
  pair of arguments of \<^verbatim>\<open>fetch\<close>.
\<close>

record Request =
  req_method :: string
  url_pathname :: string
  url_search :: string
  req_headers :: Headers
  req_body :: "stream option"

record FetchCall =
  fetch_url :: string
  fetch_method :: string
  fetch_headers :: Headers
  fetch_body :: "stream option"

text \<open>
  \<^verbatim>\<open>const allowedHeaders = ['accept', 'content-type', 'authorization', 'x-goog-api-key']\<close>
  (lines 65-73).
\<close>

definition allowedHeaders :: "string list" where
  "allowedHeaders = [''accept'', ''content-type'', ''authorization'', ''x-goog-api-key'']"

text \<open>
  Lines 76-84: the loop over \<^verbatim>\<open>request.headers.entries()\<close>, with the \<^verbatim>\<open>Headers\<close> object being
  built as its state.
\<close>

fun copyAllowed :: "Headers \<Rightarrow> header list \<Rightarrow> Headers" where
  "copyAllowed hs [] = hs"
| "copyAllowed hs ((key, value) # entries) =
     (let lowerKey = toLowerCase key in
      if lowerKey \<in> set allowedHeaders then copyAllowed (Headers_set hs key value) entries
      else copyAllowed hs entries)"

text \<open>
  Lines 62-90: the outbound headers.  The non-null assertion on \<^verbatim>\<open>get\<close> is erased at run
  time; a \<^verbatim>\<open>null\<close> there would be stored as the string \<open>null\<close>.
\<close>

definition outboundHeaders :: "Headers \<Rightarrow> Headers" where
  "outboundHeaders requestHeaders =
     (let hs = copyAllowed (new_Headers NoHeaders) (Headers_entries requestHeaders) in
      if Headers_has requestHeaders ''user-agent''
      then Headers_set hs ''User-Agent''
             (case Headers_get requestHeaders ''user-agent'' of
                None \<Rightarrow> ''null'' | Some v \<Rightarrow> v)
      else hs)"

text \<open>
  Line 58: \<^verbatim>\<open>`${apiMapping[prefix]}${rest}${search}`\<close>.  A missing property reads as
  \<^verbatim>\<open>undefined\<close> and \<^verbatim>\<open>null\<close> prints as \<open>null\<close> in a template.
\<close>

definition targetUrl ::
  "(string \<times> string) list \<Rightarrow> string option \<Rightarrow> string option \<Rightarrow> string \<Rightarrow> string" where
  "targetUrl mapping prefix rest search =
     (case prefix of
        None \<Rightarrow> ''undefined''
      | Some p \<Rightarrow> (case map_of mapping p of None \<Rightarrow> ''undefined'' | Some base \<Rightarrow> base))
     @ (case rest of None \<Rightarrow> ''null'' | Some r \<Rightarrow> r)
     @ search"

text \<open>
  Lines 107-121: the relayed response, built from what \<^verbatim>\<open>fetch\<close> returned.
\<close>

definition relay :: "Response \<Rightarrow> exn + Response" where
  "relay response =
     (let responseHeaders = new_Headers (FromHeaders (headers response));
          responseHeaders = Headers_set responseHeaders ''X-Content-Type-Options'' ''nosniff'';
          responseHeaders = Headers_set responseHeaders ''X-Frame-Options'' ''DENY'';
          responseHeaders = Headers_set responseHeaders ''Referrer-Policy'' ''no-referrer''
      in new_Response (map_option StreamBody (body response))
           \<lparr>init_status = status response, init_statusText = statusText response,
            init_headers = FromHeaders responseHeaders\<rparr>)"

text \<open>
  Lines 60-122, the body of the \<^verbatim>\<open>try\<close> block: the result or the exception, and the
  outbound calls issued.  \<^verbatim>\<open>fetch\<close> is the environment: it answers a call with a response
  or throws.
\<close>

definition forward ::
  "(FetchCall \<Rightarrow> exn + Response) \<Rightarrow> Request \<Rightarrow> string \<Rightarrow> (exn + Response) \<times> FetchCall list" where
  "forward fetch request target =
     (let hs = outboundHeaders (req_headers request);
          call = \<lparr>fetch_url = target, fetch_method = req_method request,
                  fetch_headers = hs, fetch_body = req_body request\<rparr>
      in case fetch call of
           Inl error \<Rightarrow> (Inl error, [call])
         | Inr response \<Rightarrow> (relay response, [call]))"

text \<open>
  Lines 25-127, the handler passed to \<^verbatim>\<open>serve\<close>, with the route table as a parameter.
  \<^verbatim>\<open>!prefix\<close> holds for \<^verbatim>\<open>null\<close> and for the empty string.  The \<^verbatim>\<open>catch\<close> clause turns any
  exception of the \<^verbatim>\<open>try\<close> block into the fixed 500 response.  Console output is not
  part of the result and is left out.
\<close>

definition serve_handler ::
  "(string \<times> string) list \<Rightarrow> (FetchCall \<Rightarrow> exn + Response) \<Rightarrow> Request
     \<Rightarrow> (exn + Response) \<times> FetchCall list" where
  "serve_handler mapping fetch request =
     (let pathname = url_pathname request; search = url_search request in
      if pathname = ''/'' \<or> pathname = ''/index.html'' then
        (new_Response (Some (StringBody ''Service is running!''))
           \<lparr>init_status = 200, init_statusText = [],
            init_headers = FromRecord [(''Content-Type'', ''text/html; charset=utf-8'')]\<rparr>, [])
      else if pathname = ''/robots.txt'' then
        (new_Response (Some (StringBody (''User-agent: *'' @ [CHR 0x0A] @ ''Disallow: /'')))
           \<lparr>init_status = 200, init_statusText = [],
            init_headers = FromRecord [(''Content-Type'', ''text/plain; charset=utf-8'')]\<rparr>, [])
      else
        (case extractPrefixAndRest pathname (Object_keys mapping) of
           (prefix, rest) \<Rightarrow>
             if prefix = None \<or> prefix = Some [] then
               (new_Response (Some (StringBody ''Not Found''))
                  \<lparr>init_status = 404, init_statusText = [], init_headers = NoHeaders\<rparr>, [])
             else
               (case forward fetch request (targetUrl mapping prefix rest search) of
                  (Inl error, calls) \<Rightarrow>
                    (new_Response (Some (StringBody ''Internal Server Error''))
                       \<lparr>init_status = 500, init_statusText = [], init_headers = NoHeaders\<rparr>,
                     calls)
                | (Inr response, calls) \<Rightarrow> (Inr response, calls))))"

text \<open>The program: the handler on its own table.\<close>

definition handler :: "(FetchCall \<Rightarrow> exn + Response) \<Rightarrow> Request \<Rightarrow> (exn + Response) \<times> FetchCall list" where
  "handler = serve_handler apiMapping"

section \<open>Example requests and environments\<close>

text \<open>
  Concrete inputs on which the properties below are instantiated: a request routed to
  \<open>/openai\<close> with the outbound call it leads to, requests for the static pages, a
  request no prefix accepts, and three behaviours of \<^verbatim>\<open>fetch\<close>.
\<close>

definition example_request :: Request where
  "example_request =
     \<lparr>req_method = ''GET'', url_pathname = ''/openai/v1/models'', url_search = ''?limit=1'',
      req_headers = [(''Cookie'', ''a=b''), (''Authorization'', ''Bearer X''), (''Host'', ''foo'')],
      req_body = None\<rparr>"

definition example_call :: FetchCall where
  "example_call =
     \<lparr>fetch_url = ''https://api.openai.com/v1/models?limit=1'', fetch_method = ''GET'',
      fetch_headers = [(''authorization'', ''Bearer X'')], fetch_body = None\<rparr>"

definition root_request :: Request where
  "root_request =
     \<lparr>req_method = ''GET'', url_pathname = ''/'', url_search = [], req_headers = [], req_body = None\<rparr>"

definition unrouted_request :: Request where
  "unrouted_request =
     \<lparr>req_method = ''GET'', url_pathname = ''/gemini-pro'', url_search = [], req_headers = [],
      req_body = None\<rparr>"

definition fetch_throws :: "FetchCall \<Rightarrow> exn + Response" where
  "fetch_throws call = Inl (OtherError ''connection refused'')"

definition upstream_created :: Response where
  "upstream_created =
     \<lparr>status = 201, statusText = ''Created'',
      headers = [(''Content-Type'', ''application/json'')], body = Some ''{}''\<rparr>"

definition fetch_created :: "FetchCall \<Rightarrow> exn + Response" where
  "fetch_created call = Inr upstream_created"

definition upstream_999 :: Response where
  "upstream_999 = \<lparr>status = 999, statusText = [], headers = [], body = Some ''denied''\<rparr>"

definition fetch_999 :: "FetchCall \<Rightarrow> exn + Response" where
  "fetch_999 call = Inr upstream_999"

definition robots_request :: Request where
  "robots_request =
     \<lparr>req_method = ''GET'', url_pathname = ''/robots.txt'', url_search = [], req_headers = [],
      req_body = None\<rparr>"

definition exact_request :: Request where
  "exact_request =
     \<lparr>req_method = ''GET'', url_pathname = ''/openai'', url_search = ''?limit=1'',
      req_headers = [], req_body = None\<rparr>"

section \<open>Properties of the router\<close>

lemma startsWith_iff_take: "startsWith s p \<longleftrightarrow> take (length p) s = p"
  by (induction s p rule: startsWith.induct) auto

lemma startsWith_slash: "startsWith r ''/'' \<longleftrightarrow> (\<exists>t. r = CHR ''/'' # t)"
  by (cases r) auto

lemma spec_accepts_iff:
  "spec_accepts path prefix \<longleftrightarrow>
     (\<exists>r. path = prefix @ r \<and> (r = [] \<or> (\<exists>t. r = CHR ''/'' # t)))"
proof
  assume a: "spec_accepts path prefix"
  then have "path = prefix @ drop (length prefix) path"
    by (metis append_take_drop_id spec_accepts_def)
  moreover from a have "drop (length prefix) path = [] \<or> (\<exists>t. drop (length prefix) path = CHR ''/'' # t)"
    by (auto simp: spec_accepts_def split: list.splits)
  ultimately show "\<exists>r. path = prefix @ r \<and> (r = [] \<or> (\<exists>t. r = CHR ''/'' # t))"
    by blast
next
  assume "\<exists>r. path = prefix @ r \<and> (r = [] \<or> (\<exists>t. r = CHR ''/'' # t))"
  then show "spec_accepts path prefix"
    by (auto simp: spec_accepts_def)
qed

lemma router_step:
  "extractPrefixAndRest pathname (prefix # prefixes) =
     (if spec_accepts pathname prefix then (Some prefix, Some (drop (length prefix) pathname))
      else extractPrefixAndRest pathname prefixes)"
  by (cases "drop (length prefix) pathname")
     (auto simp: spec_accepts_def startsWith_iff_take slice_def Let_def)

lemma router_refines_spec: "extractPrefixAndRest pathname prefixes = spec_router pathname prefixes"
proof (induction prefixes)
  case Nil
  show ?case by (simp add: spec_router_def)
next
  case (Cons prefix prefixes)
  then show ?case
    by (simp only: router_step) (simp add: spec_router_def)
qed

lemma keys_apiMapping:
  "Object_keys apiMapping =
     [''/mistral'', ''/discord'', ''/telegram'', ''/openai'', ''/claude'', ''/gemini'', ''/meta'',
      ''/groq'', ''/xai'', ''/cohere'', ''/huggingface'', ''/together'', ''/novita'', ''/portkey'',
      ''/fireworks'', ''/openrouter'']"
  by (simp add: Object_keys_def apiMapping_def)

lemma dash_rejected: "\<not> spec_accepts (prefix @ CHR ''-'' # suffix) prefix"
  by (simp add: spec_accepts_def)

lemma router_continues_after_dash:
  "extractPrefixAndRest (prefix @ CHR ''-'' # suffix) (prefix # later) =
     extractPrefixAndRest (prefix @ CHR ''-'' # suffix) later"
  by (simp only: router_step dash_rejected if_False)

lemma gemini_pro: "extractPrefixAndRest ''/gemini-pro'' (Object_keys apiMapping) = (None, None)"
  by (simp add: keys_apiMapping slice_def)

lemma find_Some_D: "find P xs = Some x \<Longrightarrow> x \<in> set xs \<and> P x"
  by (induction xs) (auto split: if_splits)

lemma router_match:
  "extractPrefixAndRest pathname prefixes = (Some p, r) \<Longrightarrow>
     p \<in> set prefixes \<and> r = Some (drop (length p) pathname) \<and> p @ drop (length p) pathname = pathname"
proof -
  assume a: "extractPrefixAndRest pathname prefixes = (Some p, r)"
  then have sr: "spec_router pathname prefixes = (Some p, r)" by (simp add: router_refines_spec)
  then obtain q where q: "find (spec_accepts pathname) prefixes = Some q"
    by (auto simp: spec_router_def split: option.splits)
  with sr have "q = p" "r = Some (drop (length p) pathname)"
    by (auto simp: spec_router_def)
  moreover from q have "q \<in> set prefixes \<and> spec_accepts pathname q" by (rule find_Some_D)
  ultimately show ?thesis
    by (metis append_take_drop_id spec_accepts_def)
qed

lemma router_no_match:
  "extractPrefixAndRest pathname prefixes = (None, r) \<Longrightarrow> r = None"
  by (auto simp: router_refines_spec spec_router_def split: option.splits)

lemma router_on_keys_exact:
  "list_all (\<lambda>prefix. extractPrefixAndRest prefix (Object_keys apiMapping) = (Some prefix, Some []))
     (Object_keys apiMapping)"
  unfolding keys_apiMapping by (simp add: slice_def)

lemma router_on_keys_slash:
  "list_all (\<lambda>prefix. extractPrefixAndRest (prefix @ CHR ''/'' # x) (Object_keys apiMapping)
                         = (Some prefix, Some (CHR ''/'' # x)))
     (Object_keys apiMapping)"
  unfolding keys_apiMapping by (simp add: slice_def)

lemma keys_not_special:
  "list_all (\<lambda>prefix. prefix \<noteq> [] \<and> prefix \<noteq> ''/'' \<and> prefix \<noteq> ''/index.html'' \<and> prefix \<noteq> ''/robots.txt''
       \<and> prefix @ CHR ''/'' # x \<noteq> ''/'' \<and> prefix @ CHR ''/'' # x \<noteq> ''/index.html''
       \<and> prefix @ CHR ''/'' # x \<noteq> ''/robots.txt'')
     (Object_keys apiMapping)"
  unfolding keys_apiMapping by simp

lemma router_on_table:
  assumes "prefix \<in> set (Object_keys apiMapping)" and "rest = [] \<or> rest = CHR ''/'' # x"
  shows "extractPrefixAndRest (prefix @ rest) (Object_keys apiMapping) = (Some prefix, Some rest)"
  using assms router_on_keys_exact router_on_keys_slash[of x]
  unfolding list_all_iff by auto

lemma lookup_on_table:
  "(prefix, base) \<in> set apiMapping \<Longrightarrow> map_of apiMapping prefix = Some base"
  by (rule map_of_is_SomeI) (simp_all add: apiMapping_def)

lemma table_entries:
  "(prefix, base) \<in> set apiMapping \<Longrightarrow> prefix \<in> set (Object_keys apiMapping)"
  by (force simp: Object_keys_def)

section \<open>Properties of header lists\<close>

lemma lower_char_idem: "lower_char (lower_char c) = lower_char c"
  by (simp add: lower_char_def Let_def)

lemma toLowerCase_idem: "toLowerCase (toLowerCase s) = toLowerCase s"
  by (simp add: toLowerCase_def lower_char_idem)

lemma values_of_Nil: "values_of [] n = []"
  by (simp add: values_of_def)

lemma values_of_Cons:
  "values_of ((k, v) # h) n = (if toLowerCase k = toLowerCase n then v # values_of h n else values_of h n)"
  by (simp add: values_of_def)

lemma values_of_append: "values_of (g @ h) n = values_of g n @ values_of h n"
  by (simp add: values_of_def)

lemma values_of_same: "toLowerCase m = toLowerCase n \<Longrightarrow> values_of h m = values_of h n"
  by (simp add: values_of_def)

lemma values_of_removed:
  "values_of (filter (\<lambda>(k', v'). toLowerCase k' \<noteq> toLowerCase k) h) n =
     (if toLowerCase k = toLowerCase n then [] else values_of h n)"
  by (induction h) (auto simp: values_of_def)

lemma values_of_replace_first:
  "values_of (replace_first h k v) n =
     (if toLowerCase k = toLowerCase n then (if values_of h n = [] then [] else [v])
      else values_of h n)"
proof (induction h)
  case Nil
  show ?case by (simp add: values_of_Nil)
next
  case (Cons e h)
  obtain k' v' where e: "e = (k', v')" by (cases e)
  show ?case
  proof (cases "toLowerCase k = toLowerCase n")
    case True
    with Cons.IH show ?thesis
      unfolding e by (cases "toLowerCase k' = toLowerCase n") (simp_all add: values_of_Cons values_of_removed)
  next
    case False
    with Cons.IH show ?thesis
      unfolding e by (cases "toLowerCase k' = toLowerCase k") (simp_all add: values_of_Cons values_of_removed)
  qed
qed

lemma normalize_value_idem: "normalize_value (normalize_value v) = normalize_value v"
proof -
  define w where "w = dropWhile http_whitespace v"
  define r where "r = dropWhile http_whitespace (rev w)"
  have r_fix: "dropWhile http_whitespace r = r"
    by (simp add: r_def)
  have "dropWhile http_whitespace (rev r) = rev r"
  proof (cases "r = []")
    case True
    then show ?thesis by simp
  next
    case False
    then have w: "w \<noteq> []" by (auto simp: r_def)
    obtain p where p: "rev w = p @ r"
      unfolding r_def by (metis takeWhile_dropWhile_id)
    with False have "last r = last (rev w)" by simp
    also from w have "\<dots> = hd w" by (simp add: last_rev)
    finally have "hd (rev r) = hd w" using False by (simp add: hd_rev)
    moreover from w have "\<not> http_whitespace (hd w)"
      unfolding w_def by (rule hd_dropWhile)
    ultimately show ?thesis
      using False by (simp add: dropWhile_eq_self_iff)
  qed
  then show ?thesis
    unfolding normalize_value_def w_def[symmetric] r_def[symmetric] by (simp add: r_fix)
qed

lemma normalize_value_unchanged:
  assumes "v = [] \<or> (\<not> http_whitespace (hd v) \<and> \<not> http_whitespace (last v))"
  shows "normalize_value v = v"
proof (cases "v = []")
  case True
  then show ?thesis by (simp add: normalize_value_def)
next
  case False
  with assms have "dropWhile http_whitespace v = v"
    by (simp add: dropWhile_eq_self_iff)
  moreover from False assms have "dropWhile http_whitespace (rev v) = rev v"
    by (simp add: dropWhile_eq_self_iff hd_rev)
  ultimately show ?thesis by (simp add: normalize_value_def)
qed

lemma values_of_set:
  "values_of (Headers_set h k v) n =
     (if toLowerCase k = toLowerCase n then [normalize_value v] else values_of h n)"
proof (cases "toLowerCase k = toLowerCase n")
  case True
  then have "values_of h k = values_of h n" by (rule values_of_same)
  with True show ?thesis
    by (simp add: Headers_set_def Headers_has_def Let_def values_of_replace_first
        values_of_append values_of_Cons values_of_Nil)
next
  case False
  then show ?thesis
    by (simp add: Headers_set_def Headers_has_def Let_def values_of_replace_first
        values_of_append values_of_Cons values_of_Nil)
qed

lemma find_same_name:
  "find (\<lambda>(k', v'). toLowerCase k' = toLowerCase k) h = Some (a, b) \<Longrightarrow> toLowerCase a = toLowerCase k"
  by (induction h) (auto split: if_splits)

lemma values_of_Headers_append:
  "values_of (Headers_append h k v) n =
     values_of h n @ (if toLowerCase k = toLowerCase n then [normalize_value v] else [])"
  by (auto simp: Headers_append_def Let_def values_of_append values_of_Cons values_of_Nil
      split: option.splits dest: find_same_name)

lemma values_of_fill:
  "values_of (fill acc ps) n = values_of acc n @ map normalize_value (values_of ps n)"
proof (induction ps arbitrary: acc)
  case Nil
  show ?case by (simp add: values_of_Nil)
next
  case (Cons e ps)
  obtain k v where e: "e = (k, v)" by (cases e)
  show ?case
    unfolding e by (simp add: Cons.IH values_of_Headers_append values_of_Cons)
qed

lemma concat_pick:
  "distinct ms \<Longrightarrow> concat (map (\<lambda>m. if m = a then g m else []) ms) = (if a \<in> set ms then g a else [])"
  by (induction ms) auto

lemma values_of_concat: "values_of (concat xss) n = concat (map (\<lambda>xs. values_of xs n) xss)"
  by (induction xss) (simp_all add: values_of_Nil values_of_append)

lemma values_of_Pair:
  "values_of (map (Pair m) vs) n = (if toLowerCase m = toLowerCase n then vs else [])"
  by (induction vs) (simp_all add: values_of_Nil values_of_Cons)

lemma lowered_name_present:
  "toLowerCase n \<in> set (map (\<lambda>(k, v). toLowerCase k) h) \<longleftrightarrow> values_of h n \<noteq> []"
  by (induction h) (auto simp: values_of_def)

lemma values_of_entries_of_name:
  "values_of (entries_of_name h m) n =
     (if toLowerCase m = toLowerCase n
      then (if m = ''set-cookie'' then values_of h m else [join_values (values_of h m)])
      else [])"
  by (simp add: entries_of_name_def values_of_Pair values_of_Cons values_of_Nil)

lemma lowered_names:
  "m \<in> set (map (\<lambda>(k, v). toLowerCase k) h) \<Longrightarrow> toLowerCase m = m"
  by (induction h) (auto simp: toLowerCase_idem)

lemma values_of_entries_of_lowered:
  assumes "toLowerCase m = m"
  shows "values_of (entries_of_name h m) n =
     (if m = toLowerCase n
      then (if m = ''set-cookie'' then values_of h n else [join_values (values_of h n)])
      else [])"
proof (cases "m = toLowerCase n")
  case True
  with assms have same: "toLowerCase m = toLowerCase n" by simp
  then have eq: "values_of h m = values_of h n"
    by (rule values_of_same)
  from True same show ?thesis
    unfolding values_of_entries_of_name eq by simp
next
  case False
  with assms have "toLowerCase m \<noteq> toLowerCase n" by simp
  with False show ?thesis
    unfolding values_of_entries_of_name by simp
qed

lemma values_of_entries:
  "values_of (Headers_entries h) n =
     (if values_of h n = [] then []
      else if toLowerCase n = ''set-cookie'' then values_of h n
      else [join_values (values_of h n)])"
proof -
  define names where "names = sort (remdups (map (\<lambda>(k, v). toLowerCase k) h))"
  define g where "g = (\<lambda>m. if m = ''set-cookie'' then values_of h n else [join_values (values_of h n)])"
  have dist: "distinct names" by (simp add: names_def)
  have mem: "toLowerCase n \<in> set names \<longleftrightarrow> values_of h n \<noteq> []"
    using lowered_name_present[of n h] by (simp add: names_def)
  have lowered: "toLowerCase m = m" if "m \<in> set names" for m
    using that lowered_names[of m h] by (simp add: names_def)
  have each: "values_of (entries_of_name h m) n = (if m = toLowerCase n then g m else [])"
    if "m \<in> set names" for m
    unfolding g_def by (rule values_of_entries_of_lowered) (rule lowered[OF that])
  have "values_of (Headers_entries h) n = concat (map (\<lambda>m. values_of (entries_of_name h m) n) names)"
    unfolding Headers_entries_def names_def[symmetric] values_of_concat map_map comp_def ..
  also have "\<dots> = concat (map (\<lambda>m. if m = toLowerCase n then g m else []) names)"
    by (rule arg_cong[where f = concat], rule map_cong[OF refl]) (rule each)
  also have "\<dots> = (if toLowerCase n \<in> set names then g (toLowerCase n) else [])"
    using dist by (rule concat_pick)
  finally have "values_of (Headers_entries h) n =
      (if values_of h n \<noteq> [] then g (toLowerCase n) else [])"
    unfolding mem .
  then show ?thesis
    unfolding g_def by (cases "values_of h n = []") simp_all
qed

lemma get_entries: "Headers_get (Headers_entries h) n = Headers_get h n"
  by (simp add: Headers_get_def Headers_has_def values_of_entries)

lemma values_of_copy:
  "values_of (new_Headers (FromHeaders h)) n =
     (if values_of h n = [] then []
      else if toLowerCase n = ''set-cookie'' then map normalize_value (values_of h n)
      else [normalize_value (join_values (values_of h n))])"
  by (simp add: values_of_fill values_of_Nil values_of_entries)

lemma copy_stable:
  assumes "values_of g n = values_of (new_Headers (FromHeaders h)) n"
  shows "values_of (new_Headers (FromHeaders g)) n = values_of g n"
  unfolding values_of_copy[of g] unfolding assms values_of_copy[of h]
  by (simp add: normalize_value_idem comp_def)

lemma get_copy:
  "Headers_get (new_Headers (FromHeaders h)) n =
     (if toLowerCase n = ''set-cookie''
      then (if values_of h n = [] then None
            else Some (join_values (map normalize_value (values_of h n))))
      else map_option normalize_value (Headers_get h n))"
  unfolding Headers_get_def Headers_has_def values_of_copy by simp


section \<open>Properties of the outbound headers\<close>

lemma lower_literals:
  "toLowerCase ''User-Agent'' = ''user-agent''"
  "toLowerCase ''user-agent'' = ''user-agent''"
  "toLowerCase ''X-Content-Type-Options'' = ''x-content-type-options''"
  "toLowerCase ''X-Frame-Options'' = ''x-frame-options''"
  "toLowerCase ''Referrer-Policy'' = ''referrer-policy''"
  "toLowerCase ''Content-Type'' = ''content-type''"
  by code_simp+









section \<open>Properties of the handler\<close>

lemma reason_phrase_empty: "reason_phrase []"
  by (simp add: reason_phrase_def)

lemma normalized_literals:
  "normalize_value ''nosniff'' = ''nosniff''"
  "normalize_value ''DENY'' = ''DENY''"
  "normalize_value ''no-referrer'' = ''no-referrer''"
  "normalize_value ''text/plain;charset=UTF-8'' = ''text/plain;charset=UTF-8''"
  "normalize_value ''text/html; charset=utf-8'' = ''text/html; charset=utf-8''"
  "normalize_value ''text/plain; charset=utf-8'' = ''text/plain; charset=utf-8''"
  by code_simp+

lemma text_response:
  assumes "200 \<le> n" and "n \<le> 599" and "\<not> null_body_status n"
  shows "new_Response (Some (StringBody s)) \<lparr>init_status = n, init_statusText = [], init_headers = NoHeaders\<rparr> =
     Inr \<lparr>status = n, statusText = [], headers = [(''Content-Type'', ''text/plain;charset=UTF-8'')],
          body = Some s\<rparr>"
  using assms
  by (simp add: new_Response_def Let_def reason_phrase_empty Headers_has_def values_of_Nil
      Headers_append_def normalized_literals)

lemma typed_response:
  assumes "normalize_value t = t"
  shows "new_Response (Some (StringBody s))
           \<lparr>init_status = 200, init_statusText = [], init_headers = FromRecord [(''Content-Type'', t)]\<rparr> =
     Inr \<lparr>status = 200, statusText = [], headers = [(''Content-Type'', t)], body = Some s\<rparr>"
  using assms
  by (simp add: new_Response_def Let_def reason_phrase_empty Headers_has_def values_of_Nil
      values_of_Cons Headers_append_def null_body_status_def)

lemma serve_handler_root:
  assumes "url_pathname request = ''/'' \<or> url_pathname request = ''/index.html''"
  shows "serve_handler mapping fetch request =
     (Inr \<lparr>status = 200, statusText = [],
           headers = [(''Content-Type'', ''text/html; charset=utf-8'')],
           body = Some ''Service is running!''\<rparr>, [])"
  using assms by (auto simp add: serve_handler_def typed_response normalized_literals)

lemma serve_handler_robots:
  assumes "url_pathname request = ''/robots.txt''"
  shows "serve_handler mapping fetch request =
     (Inr \<lparr>status = 200, statusText = [],
           headers = [(''Content-Type'', ''text/plain; charset=utf-8'')],
           body = Some (''User-agent: *'' @ [CHR 0x0A] @ ''Disallow: /'')\<rparr>, [])"
  using assms by (simp add: serve_handler_def typed_response normalized_literals)

lemma serve_handler_unmatched:
  assumes "url_pathname request \<noteq> ''/''" "url_pathname request \<noteq> ''/index.html''"
     "url_pathname request \<noteq> ''/robots.txt''"
     "fst (extractPrefixAndRest (url_pathname request) (Object_keys mapping)) = None \<or>
      fst (extractPrefixAndRest (url_pathname request) (Object_keys mapping)) = Some []"
  shows "serve_handler mapping fetch request = 
    (Inr \<lparr>status = 404, statusText = [], headers = [(''Content-Type'', ''text/plain;charset=UTF-8'')],
          body = Some ''Not Found''\<rparr>, [])"
  using assms
  by (auto simp add: serve_handler_def text_response null_body_status_def split: prod.splits)

lemma values_of_three_sets:
  "values_of
     (Headers_set (Headers_set (Headers_set g
        ''X-Content-Type-Options'' ''nosniff'') ''X-Frame-Options'' ''DENY'')
        ''Referrer-Policy'' ''no-referrer'') name =
     (if toLowerCase name = ''x-content-type-options'' then [''nosniff'']
      else if toLowerCase name = ''x-frame-options'' then [''DENY'']
      else if toLowerCase name = ''referrer-policy'' then [''no-referrer'']
      else values_of g name)"
  unfolding values_of_set lower_literals normalized_literals
  by (auto dest: not_sym)

lemma get_three_sets:
  "Headers_get
     (new_Headers (FromHeaders
       (Headers_set (Headers_set (Headers_set (new_Headers (FromHeaders h))
          ''X-Content-Type-Options'' ''nosniff'') ''X-Frame-Options'' ''DENY'')
          ''Referrer-Policy'' ''no-referrer''))) name =
     (if toLowerCase name = ''x-content-type-options'' then Some ''nosniff''
      else if toLowerCase name = ''x-frame-options'' then Some ''DENY''
      else if toLowerCase name = ''referrer-policy'' then Some ''no-referrer''
      else Headers_get (new_Headers (FromHeaders h)) name)"
proof -
  define g where "g = Headers_set (Headers_set (Headers_set (new_Headers (FromHeaders h))
          ''X-Content-Type-Options'' ''nosniff'') ''X-Frame-Options'' ''DENY'')
          ''Referrer-Policy'' ''no-referrer''"
  have g: "values_of g name =
     (if toLowerCase name = ''x-content-type-options'' then [''nosniff'']
      else if toLowerCase name = ''x-frame-options'' then [''DENY'']
      else if toLowerCase name = ''referrer-policy'' then [''no-referrer'']
      else values_of (new_Headers (FromHeaders h)) name)"
    unfolding g_def by (rule values_of_three_sets)
  consider (a) "toLowerCase name = ''x-content-type-options''"
    | (b) "toLowerCase name \<noteq> ''x-content-type-options''" "toLowerCase name = ''x-frame-options''"
    | (c) "toLowerCase name \<noteq> ''x-content-type-options''" "toLowerCase name \<noteq> ''x-frame-options''"
          "toLowerCase name = ''referrer-policy''"
    | (d) "toLowerCase name \<noteq> ''x-content-type-options''" "toLowerCase name \<noteq> ''x-frame-options''"
          "toLowerCase name \<noteq> ''referrer-policy''"
    by blast
  then have "Headers_get (new_Headers (FromHeaders g)) name =
     (if toLowerCase name = ''x-content-type-options'' then Some ''nosniff''
      else if toLowerCase name = ''x-frame-options'' then Some ''DENY''
      else if toLowerCase name = ''referrer-policy'' then Some ''no-referrer''
      else Headers_get (new_Headers (FromHeaders h)) name)"
  proof cases
    case a
    with g have "values_of g name = [''nosniff'']" by simp
    with a show ?thesis
      unfolding Headers_get_def Headers_has_def values_of_copy[of g]
      by (simp add: normalized_literals)
  next
    case b
    with g have "values_of g name = [''DENY'']" by simp
    with b show ?thesis
      unfolding Headers_get_def Headers_has_def values_of_copy[of g]
      by (simp add: normalized_literals)
  next
    case c
    with g have "values_of g name = [''no-referrer'']" by simp
    with c show ?thesis
      unfolding Headers_get_def Headers_has_def values_of_copy[of g]
      by (simp add: normalized_literals)
  next
    case d
    with g have "values_of g name = values_of (new_Headers (FromHeaders h)) name" by simp
    then have "values_of (new_Headers (FromHeaders g)) name = values_of g name"
      by (rule copy_stable)
    with d g show ?thesis
      unfolding Headers_get_def Headers_has_def by simp
  qed
  then show ?thesis unfolding g_def .
qed

lemma relay_accepted:
  assumes "status upstream = 101 \<or> (200 \<le> status upstream \<and> status upstream \<le> 599)"
    and "reason_phrase (statusText upstream)"
    and "body upstream = None \<or> \<not> null_body_status (status upstream)"
  shows "\<exists>response. relay upstream = Inr response \<and>
     status response = status upstream \<and> statusText response = statusText upstream \<and>
     body response = body upstream \<and>
     (\<forall>name. Headers_get (headers response) name =
        (if toLowerCase name = ''x-content-type-options'' then Some ''nosniff''
         else if toLowerCase name = ''x-frame-options'' then Some ''DENY''
         else if toLowerCase name = ''referrer-policy'' then Some ''no-referrer''
         else Headers_get (new_Headers (FromHeaders (headers upstream))) name))"
proof -
  from assms(1) have short: "status upstream mod 65536 = status upstream"
    by auto
  from assms(1) have range: "\<not> ((status upstream < 200 \<or> 599 < status upstream) \<and> status upstream \<noteq> 101)"
    by auto
  show ?thesis
  proof (cases "body upstream")
    case None
    with short range assms(2) show ?thesis
      by (simp add: relay_def new_Response_def Let_def get_three_sets del: new_Headers.simps)
  next
    case (Some s)
    with short range assms(2,3) show ?thesis
      by (simp add: relay_def new_Response_def Let_def get_three_sets del: new_Headers.simps)
  qed
qed

lemma relay_rejected:
  assumes "status upstream mod 65536 < 200 \<or> 599 < status upstream mod 65536"
    and "status upstream mod 65536 \<noteq> 101"
  shows "relay upstream = Inl RangeError"
  using assms by (auto simp add: relay_def new_Response_def Let_def)

lemma forward_calls:
  "snd (forward fetch request target) =
     [\<lparr>fetch_url = target, fetch_method = req_method request,
       fetch_headers = outboundHeaders (req_headers request), fetch_body = req_body request\<rparr>]"
  by (simp add: forward_def Let_def split: sum.splits)

lemma forward_result:
  "fst (forward fetch request target) =
     (case fetch \<lparr>fetch_url = target, fetch_method = req_method request,
       fetch_headers = outboundHeaders (req_headers request), fetch_body = req_body request\<rparr> of
        Inl error \<Rightarrow> Inl error | Inr upstream \<Rightarrow> relay upstream)"
  by (simp add: forward_def Let_def split: sum.splits)

lemma internal_error_response:
  "new_Response (Some (StringBody ''Internal Server Error''))
     \<lparr>init_status = 500, init_statusText = [], init_headers = NoHeaders\<rparr> =
   Inr \<lparr>status = 500, statusText = [], headers = [(''Content-Type'', ''text/plain;charset=UTF-8'')],
        body = Some ''Internal Server Error''\<rparr>"
  by (rule text_response) (simp_all add: null_body_status_def)

lemma serve_handler_matched:
  assumes "url_pathname request \<noteq> ''/''" "url_pathname request \<noteq> ''/index.html''"
     "url_pathname request \<noteq> ''/robots.txt''"
     "extractPrefixAndRest (url_pathname request) (Object_keys mapping) = (Some p, rest)" "p \<noteq> []"
  shows "serve_handler mapping fetch request =
     (case fst (forward fetch request (targetUrl mapping (Some p) rest (url_search request))) of
        Inl error \<Rightarrow>
          Inr \<lparr>status = 500, statusText = [], headers = [(''Content-Type'', ''text/plain;charset=UTF-8'')],
               body = Some ''Internal Server Error''\<rparr>
      | Inr response \<Rightarrow> Inr response,
      snd (forward fetch request (targetUrl mapping (Some p) rest (url_search request))))"
  using assms
  by (simp add: serve_handler_def internal_error_response split: prod.splits sum.splits)

lemma serve_handler_calls_cases:
  assumes "snd (serve_handler mapping fetch request) \<noteq> []"
  obtains p rest where "url_pathname request \<noteq> ''/''" "url_pathname request \<noteq> ''/index.html''"
      "url_pathname request \<noteq> ''/robots.txt''" "p \<noteq> []"
      "extractPrefixAndRest (url_pathname request) (Object_keys mapping) = (Some p, rest)"
proof -
  from assms have 1: "url_pathname request \<noteq> ''/''" "url_pathname request \<noteq> ''/index.html''"
    using serve_handler_root[of request mapping fetch] by auto
  from assms have 2: "url_pathname request \<noteq> ''/robots.txt''"
    using serve_handler_robots[of request mapping fetch] by auto
  obtain prefix rest where r: "extractPrefixAndRest (url_pathname request) (Object_keys mapping) = (prefix, rest)"
    by (cases "extractPrefixAndRest (url_pathname request) (Object_keys mapping)")
  have "\<not> (prefix = None \<or> prefix = Some [])"
  proof
    assume "prefix = None \<or> prefix = Some []"
    with r have "snd (serve_handler mapping fetch request) = []"
      using serve_handler_unmatched[OF 1 2, of mapping fetch] by simp
    with assms show False by contradiction
  qed
  then obtain p where "prefix = Some p" "p \<noteq> []" by (cases prefix) auto
  with 1 2 r that show thesis by blast
qed

lemma handler_with_call:
  assumes "call \<in> set (snd (handler fetch request))"
  shows "handler fetch request =
     (case (case fetch call of Inl error \<Rightarrow> Inl error | Inr upstream \<Rightarrow> relay upstream) of
        Inl error \<Rightarrow>
          Inr \<lparr>status = 500, statusText = [], headers = [(''Content-Type'', ''text/plain;charset=UTF-8'')],
               body = Some ''Internal Server Error''\<rparr>
      | Inr response \<Rightarrow> Inr response, [call])"
proof -
  from assms have ne: "snd (serve_handler apiMapping fetch request) \<noteq> []"
    by (auto simp: handler_def)
  then obtain p rest where m: "url_pathname request \<noteq> ''/''" "url_pathname request \<noteq> ''/index.html''"
      "url_pathname request \<noteq> ''/robots.txt''"
      "extractPrefixAndRest (url_pathname request) (Object_keys apiMapping) = (Some p, rest)" "p \<noteq> []"
    by (rule serve_handler_calls_cases)
  note h = serve_handler_matched[OF m, of fetch]
  from assms have c: "call = \<lparr>fetch_url = targetUrl apiMapping (Some p) rest (url_search request),
       fetch_method = req_method request,
       fetch_headers = outboundHeaders (req_headers request), fetch_body = req_body request\<rparr>"
    unfolding handler_def h by (simp add: forward_calls)
  show ?thesis
    unfolding handler_def h forward_calls forward_result c ..
qed

lemma rejected_upstream_gives_500:
  assumes "call \<in> set (snd (handler fetch request))" and "fetch call = Inr upstream"
    and "status upstream mod 65536 < 200 \<or> 599 < status upstream mod 65536"
    and "status upstream mod 65536 \<noteq> 101"
  shows "handler fetch request =
     (Inr \<lparr>status = 500, statusText = [],
           headers = [(''Content-Type'', ''text/plain;charset=UTF-8'')],
           body = Some ''Internal Server Error''\<rparr>, [call])"
  unfolding handler_with_call[OF assms(1)] assms(2)
  by (simp add: relay_rejected[OF assms(3,4)])

lemma handler_returns_response: "\<exists>response. fst (handler fetch request) = Inr response"
proof (cases "snd (handler fetch request)")
  case Nil
  show ?thesis
  proof (cases "url_pathname request = ''/'' \<or> url_pathname request = ''/index.html''")
    case True
    then show ?thesis by (simp add: handler_def serve_handler_root)
  next
    case root: False
    show ?thesis
    proof (cases "url_pathname request = ''/robots.txt''")
      case True
      then show ?thesis by (simp add: handler_def serve_handler_robots)
    next
      case False
      obtain prefix rest where r:
        "extractPrefixAndRest (url_pathname request) (Object_keys apiMapping) = (prefix, rest)"
        by (cases "extractPrefixAndRest (url_pathname request) (Object_keys apiMapping)")
      show ?thesis
      proof (cases "prefix = None \<or> prefix = Some []")
        case True
        with root False r show ?thesis
          by (simp add: handler_def serve_handler_unmatched)
      next
        case unmatched: False
        then obtain p where "prefix = Some p" "p \<noteq> []" by (cases prefix) auto
        with root False r have "snd (handler fetch request) \<noteq> []"
          by (simp add: handler_def serve_handler_matched forward_calls)
        with Nil show ?thesis by contradiction
      qed
    qed
  qed
next
  case (Cons call calls)
  then have "call \<in> set (snd (handler fetch request))" by simp
  then have "handler fetch request =
     (case (case fetch call of Inl error \<Rightarrow> Inl error | Inr upstream \<Rightarrow> relay upstream) of
        Inl error \<Rightarrow>
          Inr \<lparr>status = 500, statusText = [], headers = [(''Content-Type'', ''text/plain;charset=UTF-8'')],
               body = Some ''Internal Server Error''\<rparr>
      | Inr response \<Rightarrow> Inr response, [call])"
    by (rule handler_with_call)
  then show ?thesis
    by (simp split: sum.splits)
qed

lemma example_outbound_headers:
  "outboundHeaders [(''Cookie'', ''a=b''), (''Authorization'', ''Bearer X''), (''Host'', ''foo'')] =
     [(''authorization'', ''Bearer X'')]"
  by code_simp

lemma example_request_calls: "snd (handler fetch example_request) = [example_call]"
proof -
  have e: "(''/openai'', ''https://api.openai.com'') \<in> set apiMapping"
    by (simp add: apiMapping_def)
  have path: "url_pathname example_request = ''/openai'' @ ''/v1/models''"
    by (simp add: example_request_def)
  have router: "extractPrefixAndRest (url_pathname example_request) (Object_keys apiMapping) =
      (Some ''/openai'', Some ''/v1/models'')"
    unfolding path by (rule router_on_table[OF table_entries[OF e]]) simp
  have special: "url_pathname example_request \<noteq> ''/''"
    "url_pathname example_request \<noteq> ''/index.html''"
    "url_pathname example_request \<noteq> ''/robots.txt''"
    by (simp_all add: example_request_def)
  have target: "targetUrl apiMapping (Some ''/openai'') (Some ''/v1/models'') ''?limit=1'' =
      ''https://api.openai.com/v1/models?limit=1''"
    by (simp add: targetUrl_def lookup_on_table[OF e])
  have fields: "req_method example_request = ''GET''" "url_search example_request = ''?limit=1''"
    "req_headers example_request =
       [(''Cookie'', ''a=b''), (''Authorization'', ''Bearer X''), (''Host'', ''foo'')]"
    "req_body example_request = None"
    by (simp_all add: example_request_def)
  show ?thesis
    unfolding handler_def serve_handler_matched[OF special router, simplified]
      forward_calls fields target example_outbound_headers example_call_def
    by (rule snd_conv)
qed

lemma short_999: "(999::nat) mod 65536 = 999"
  by simp

text \<open>
  Within the range of the constructor the relay is faithful.  For every upstream response
  that the \<^verbatim>\<open>Response\<close> constructor takes (status 101 or a status from 200 to 599, a status
  text that is a reason phrase, no body on a null-body status), the relayed response has
  the upstream's status code, status text and body.  Its header mapping (case-insensitive
  names, combined values) has \<open>X-Content-Type-Options\<close> at \<open>nosniff\<close>,
  \<open>X-Frame-Options\<close> at \<open>DENY\<close> and \<open>Referrer-Policy\<close> at \<open>no-referrer\<close>; every other
  name reads as it does in the copy \<^verbatim>\<open>new Headers(response.headers)\<close> of the upstream's
  headers, that is, with the upstream's combined value normalised (for \<open>set-cookie\<close>, the
  upstream's values normalised one by one and then combined).
\<close>

lemma relay_preserves_upstream:
  assumes "call \<in> set (snd (handler fetch request))" and "fetch call = Inr upstream"
    and "status upstream = 101 \<or> (200 \<le> status upstream \<and> status upstream \<le> 599)"
    and "reason_phrase (statusText upstream)"
    and "body upstream = None \<or> \<not> null_body_status (status upstream)"
  shows "\<exists>response. handler fetch request = (Inr response, [call]) \<and>
     status response = status upstream \<and> statusText response = statusText upstream \<and>
     body response = body upstream \<and>
     (\<forall>name. Headers_get (headers response) name =
        (if toLowerCase name = ''x-content-type-options'' then Some ''nosniff''
         else if toLowerCase name = ''x-frame-options'' then Some ''DENY''
         else if toLowerCase name = ''referrer-policy'' then Some ''no-referrer''
         else if toLowerCase name = ''set-cookie''
         then (if values_of (headers upstream) name = [] then None
               else Some (join_values (map normalize_value (values_of (headers upstream) name))))
         else map_option normalize_value (Headers_get (headers upstream) name)))"
proof -
  from relay_accepted[OF assms(3-5)] obtain response where r: "relay upstream = Inr response"
    and p: "status response = status upstream" "statusText response = statusText upstream"
     "body response = body upstream"
     "\<forall>name. Headers_get (headers response) name =
        (if toLowerCase name = ''x-content-type-options'' then Some ''nosniff''
         else if toLowerCase name = ''x-frame-options'' then Some ''DENY''
         else if toLowerCase name = ''referrer-policy'' then Some ''no-referrer''
         else Headers_get (new_Headers (FromHeaders (headers upstream))) name)"
    by blast
  have "handler fetch request = (Inr response, [call])"
    unfolding handler_with_call[OF assms(1)] assms(2) by (simp add: r)
  with p show ?thesis unfolding get_copy by blast
qed

lemma relay_preserves_upstream_example:
  "example_call \<in> set (snd (handler fetch_created example_request))
   \<and> fetch_created example_call = Inr upstream_created
   \<and> (status upstream_created = 101 \<or>
        (200 \<le> status upstream_created \<and> status upstream_created \<le> 599))
   \<and> reason_phrase (statusText upstream_created)
   \<and> (body upstream_created = None \<or> \<not> null_body_status (status upstream_created))
   \<and> (\<exists>response. handler fetch_created example_request = (Inr response, [example_call]) \<and>
        status response = 201 \<and> statusText response = ''Created'' \<and>
        body response = Some ''{}'' \<and>
        Headers_get (headers response) ''Content-Type'' = Some ''application/json'' \<and>
        Headers_get (headers response) ''X-Content-Type-Options'' = Some ''nosniff'' \<and>
        Headers_get (headers response) ''X-Frame-Options'' = Some ''DENY'' \<and>
        Headers_get (headers response) ''Referrer-Policy'' = Some ''no-referrer'')"
proof -
  have "snd (handler fetch_created example_request) = [example_call]"
    by (rule example_request_calls)
  then have a: "example_call \<in> set (snd (handler fetch_created example_request))"
    by simp
  have b: "fetch_created example_call = Inr upstream_created"
    by (simp add: fetch_created_def)
  have c: "status upstream_created = 101 \<or>
        (200 \<le> status upstream_created \<and> status upstream_created \<le> 599)"
    by (simp add: upstream_created_def)
  have e: "reason_phrase (statusText upstream_created)"
    by code_simp
  have f: "body upstream_created = None \<or> \<not> null_body_status (status upstream_created)"
    by (simp add: upstream_created_def null_body_status_def)
  have g: "map_option normalize_value (Headers_get (headers upstream_created) ''Content-Type'') =
      Some ''application/json''"
    by code_simp
  from relay_preserves_upstream[OF a b c e f] obtain response where
    r: "handler fetch_created example_request = (Inr response, [example_call])"
    and s: "status response = status upstream_created" "statusText response = statusText upstream_created"
      "body response = body upstream_created"
    and h: "\<And>name. Headers_get (headers response) name =
        (if toLowerCase name = ''x-content-type-options'' then Some ''nosniff''
         else if toLowerCase name = ''x-frame-options'' then Some ''DENY''
         else if toLowerCase name = ''referrer-policy'' then Some ''no-referrer''
         else if toLowerCase name = ''set-cookie''
         then (if values_of (headers upstream_created) name = [] then None
               else Some (join_values (map normalize_value (values_of (headers upstream_created) name))))
         else map_option normalize_value (Headers_get (headers upstream_created) name))"
    by blast
  have ct: "toLowerCase ''Content-Type'' \<noteq> ''x-content-type-options''"
    "toLowerCase ''Content-Type'' \<noteq> ''x-frame-options''"
    "toLowerCase ''Content-Type'' \<noteq> ''referrer-policy''"
    "toLowerCase ''Content-Type'' \<noteq> ''set-cookie''"
    unfolding lower_literals by simp_all
  have x: "toLowerCase ''X-Frame-Options'' \<noteq> ''x-content-type-options''"
    "toLowerCase ''Referrer-Policy'' \<noteq> ''x-content-type-options''"
    "toLowerCase ''Referrer-Policy'' \<noteq> ''x-frame-options''"
    unfolding lower_literals by simp_all
  have "status response = 201" "statusText response = ''Created''" "body response = Some ''{}''"
    using s by (simp_all add: upstream_created_def)
  moreover have "Headers_get (headers response) ''Content-Type'' = Some ''application/json''"
    unfolding h using ct g by simp
  moreover have "Headers_get (headers response) ''X-Content-Type-Options'' = Some ''nosniff''"
    unfolding h by (simp add: lower_literals)
  moreover have "Headers_get (headers response) ''X-Frame-Options'' = Some ''DENY''"
    unfolding h using x by (simp add: lower_literals)
  moreover have "Headers_get (headers response) ''Referrer-Policy'' = Some ''no-referrer''"
    unfolding h using x by (simp add: lower_literals)
  ultimately show ?thesis using a b c e f r by blast
qed

section \<open>The claims\<close>

text \<open>
  Claim C1.  For every request path and the fixed route table, the router returns the
  first prefix in declaration order that the specification's rule accepts (the path
  starts with the prefix literally and the remainder is empty or starts with a slash),
  together with the remainder, and signals no match when no prefix is accepted.  A path
  of the form prefix, dash, suffix is rejected for that prefix, and the scan goes on with
  the later prefixes; \<open>/gemini-pro\<close> ends with no match.
\<close>

theorem router_first_accepted_prefix:
  "extractPrefixAndRest pathname (Object_keys apiMapping) =
     (case find (spec_accepts pathname) (Object_keys apiMapping) of
        None \<Rightarrow> (None, None)
      | Some prefix \<Rightarrow> (Some prefix, Some (drop (length prefix) pathname)))
   \<and> spec_accepts pathname prefix =
       (\<exists>remainder. pathname = prefix @ remainder \<and>
          (remainder = [] \<or> (\<exists>t. remainder = CHR ''/'' # t)))
   \<and> \<not> spec_accepts (prefix @ CHR ''-'' # suffix) prefix
   \<and> extractPrefixAndRest (prefix @ CHR ''-'' # suffix) (prefix # later) =
       extractPrefixAndRest (prefix @ CHR ''-'' # suffix) later
   \<and> extractPrefixAndRest ''/gemini-pro'' (Object_keys apiMapping) = (None, None)"
proof (intro conjI)
  show "extractPrefixAndRest pathname (Object_keys apiMapping) =
     (case find (spec_accepts pathname) (Object_keys apiMapping) of
        None \<Rightarrow> (None, None)
      | Some prefix \<Rightarrow> (Some prefix, Some (drop (length prefix) pathname)))"
    by (simp only: router_refines_spec spec_router_def)
  show "spec_accepts pathname prefix =
       (\<exists>remainder. pathname = prefix @ remainder \<and>
          (remainder = [] \<or> (\<exists>t. remainder = CHR ''/'' # t)))"
    by (rule spec_accepts_iff)
  show "\<not> spec_accepts (prefix @ CHR ''-'' # suffix) prefix"
    by (rule dash_rejected)
  show "extractPrefixAndRest (prefix @ CHR ''-'' # suffix) (prefix # later) =
       extractPrefixAndRest (prefix @ CHR ''-'' # suffix) later"
    by (rule router_continues_after_dash)
  show "extractPrefixAndRest ''/gemini-pro'' (Object_keys apiMapping) = (None, None)"
    by (rule gemini_pro)
qed

text \<open>
  Claim C10.  Whenever the router returns a match, the prefix followed by the rest is the
  original path and the prefix is one of the prefixes it was given (for the handler, the
  keys of the mapping table); when it returns no match, both components are null.
\<close>

theorem router_result_shape:
  "(extractPrefixAndRest pathname prefixes = (Some p, r) \<longrightarrow>
      p \<in> set prefixes \<and> (\<exists>rest. r = Some rest \<and> p @ rest = pathname))
   \<and> (extractPrefixAndRest pathname prefixes = (None, r) \<longrightarrow> r = None)"
  using router_match[of pathname prefixes p r] router_no_match[of pathname prefixes r]
  by blast

theorem router_result_shape_witness:
  "extractPrefixAndRest ''/openai/v1/models'' (Object_keys apiMapping) =
     (Some ''/openai'', Some ''/v1/models'')
   \<and> ''/openai'' \<in> set (Object_keys apiMapping)
   \<and> ''/openai'' @ ''/v1/models'' = ''/openai/v1/models''
   \<and> extractPrefixAndRest ''/gemini-pro'' (Object_keys apiMapping) = (None, None)"
proof -
  have m: "extractPrefixAndRest ''/openai/v1/models'' (Object_keys apiMapping) =
     (Some ''/openai'', Some ''/v1/models'')"
    by (simp add: keys_apiMapping slice_def)
  have n: "extractPrefixAndRest ''/gemini-pro'' (Object_keys apiMapping) = (None, None)"
    by (simp add: keys_apiMapping slice_def)
  from m n
    router_result_shape[of "''/openai/v1/models''" "Object_keys apiMapping" "''/openai''"
      "Some ''/v1/models''"]
    router_result_shape[of "''/gemini-pro''" "Object_keys apiMapping" "''/gemini-pro''" None]
  show ?thesis by simp
qed



text \<open>
  Claim C8, evaluated on the code.  The claim asks that a forwarded header keeps the
  spelling of its name, and the comment on line 79 says the same.  The loop takes its
  keys from the iteration of \<^verbatim>\<open>request.headers\<close>, which yields lowercased names, so the
  inbound header \<open>Authorization: Bearer X\<close> is forwarded under the name
  \<open>authorization\<close>; its value is unchanged.
\<close>

theorem forwarded_name_is_lowercased:
  "Headers_entries [(''Authorization'', ''Bearer X'')] = [(''authorization'', ''Bearer X'')]
   \<and> outboundHeaders [(''Authorization'', ''Bearer X'')] = [(''authorization'', ''Bearer X'')]"
  by code_simp

text \<open>
  Claim C3.  For a request whose path is a configured prefix followed by a remainder
  that is empty or starts with a slash, the router returns that prefix and that
  remainder, and the one outbound call goes to the upstream base of the prefix followed
  by the remainder and the query string, unchanged: the bare base and the query string
  when the path is the prefix itself, and base, \<open>/x\<close>, query string when the path is the
  prefix followed by \<open>/x\<close>.
\<close>

theorem target_url_concatenation:
  assumes "(prefix, base) \<in> set apiMapping"
    and "rest = [] \<or> (\<exists>x. rest = CHR ''/'' # x)"
    and "url_pathname request = prefix @ rest"
  shows "extractPrefixAndRest (url_pathname request) (Object_keys apiMapping) = (Some prefix, Some rest)
    \<and> targetUrl apiMapping (Some prefix) (Some rest) (url_search request) = base @ rest @ url_search request
    \<and> map fetch_url (snd (handler fetch request)) = [base @ rest @ url_search request]"
proof -
  from assms(1) have key: "prefix \<in> set (Object_keys apiMapping)" by (rule table_entries)
  from assms(2) obtain x where rest: "rest = [] \<or> rest = CHR ''/'' # x" by blast
  from key rest have router: "extractPrefixAndRest (prefix @ rest) (Object_keys apiMapping) = (Some prefix, Some rest)"
    by (rule router_on_table)
  from key keys_not_special[of x] have ns:
    "prefix \<noteq> []" "prefix \<noteq> ''/''" "prefix \<noteq> ''/index.html''" "prefix \<noteq> ''/robots.txt''"
    "prefix @ CHR ''/'' # x \<noteq> ''/''" "prefix @ CHR ''/'' # x \<noteq> ''/index.html''"
    "prefix @ CHR ''/'' # x \<noteq> ''/robots.txt''"
    unfolding list_all_iff by blast+
  from rest ns have special:
    "url_pathname request \<noteq> ''/''" "url_pathname request \<noteq> ''/index.html''"
    "url_pathname request \<noteq> ''/robots.txt''"
    unfolding assms(3) by auto
  from router have router': "extractPrefixAndRest (url_pathname request) (Object_keys apiMapping) = (Some prefix, Some rest)"
    unfolding assms(3) .
  have target: "targetUrl apiMapping (Some prefix) (Some rest) (url_search request) = base @ rest @ url_search request"
    by (simp add: targetUrl_def lookup_on_table[OF assms(1)])
  have "map fetch_url (snd (handler fetch request)) = [base @ rest @ url_search request]"
    unfolding handler_def serve_handler_matched[OF special router' ns(1)]
    by (simp add: forward_calls target)
  with router' target show ?thesis by blast
qed

theorem target_url_concatenation_witness:
  "(''/openai'', ''https://api.openai.com'') \<in> set apiMapping
   \<and> url_pathname example_request = ''/openai'' @ ''/v1/models''
   \<and> map fetch_url (snd (handler fetch_throws example_request)) =
       [''https://api.openai.com'' @ ''/v1/models'' @ url_search example_request]
   \<and> url_pathname exact_request = ''/openai'' @ []
   \<and> map fetch_url (snd (handler fetch_throws exact_request)) =
       [''https://api.openai.com'' @ [] @ url_search exact_request]"
proof -
  have e: "(''/openai'', ''https://api.openai.com'') \<in> set apiMapping"
    by (simp add: apiMapping_def)
  have p1: "url_pathname example_request = ''/openai'' @ ''/v1/models''"
    by (simp add: example_request_def)
  have p2: "url_pathname exact_request = ''/openai'' @ []"
    by (simp add: exact_request_def)
  have r1: "''/v1/models'' = [] \<or> (\<exists>x. ''/v1/models'' = CHR ''/'' # x)" by simp
  have r2: "([]::string) = [] \<or> (\<exists>x. ([]::string) = CHR ''/'' # x)" by simp
  from target_url_concatenation[OF e r1 p1, of fetch_throws]
       target_url_concatenation[OF e r2 p2, of fetch_throws] e p1 p2
  show ?thesis by blast
qed

text \<open>
  Claim C4.  For every path that no configured prefix accepts and that is none of \<open>/\<close>,
  \<open>/index.html\<close> and \<open>/robots.txt\<close>, the handler returns status 404 with the
  plain-text body \<open>Not Found\<close> and issues no outbound call.
\<close>

theorem unrouted_path_gives_404:
  assumes "url_pathname request \<notin> {''/'', ''/index.html'', ''/robots.txt''}"
    and "\<forall>prefix \<in> set (Object_keys apiMapping). \<not> spec_accepts (url_pathname request) prefix"
  shows "handler fetch request =
     (Inr \<lparr>status = 404, statusText = [],
           headers = [(''Content-Type'', ''text/plain;charset=UTF-8'')],
           body = Some ''Not Found''\<rparr>, [])"
proof -
  from assms(2) have "find (spec_accepts (url_pathname request)) (Object_keys apiMapping) = None"
    by (simp add: find_None_iff)
  then have "extractPrefixAndRest (url_pathname request) (Object_keys apiMapping) = (None, None)"
    by (simp add: router_refines_spec spec_router_def)
  then have "fst (extractPrefixAndRest (url_pathname request) (Object_keys apiMapping)) = None \<or>
      fst (extractPrefixAndRest (url_pathname request) (Object_keys apiMapping)) = Some []"
    by simp
  with assms(1) show ?thesis
    unfolding handler_def by (intro serve_handler_unmatched) simp_all
qed

theorem unrouted_path_gives_404_witness:
  "url_pathname unrouted_request = ''/gemini-pro''
   \<and> find (spec_accepts ''/gemini-pro'') (Object_keys apiMapping) = None
   \<and> handler fetch_created unrouted_request =
     (Inr \<lparr>status = 404, statusText = [],
           headers = [(''Content-Type'', ''text/plain;charset=UTF-8'')],
           body = Some ''Not Found''\<rparr>, [])"
proof -
  have p: "url_pathname unrouted_request = ''/gemini-pro''"
    by (simp add: unrouted_request_def)
  have n: "find (spec_accepts ''/gemini-pro'') (Object_keys apiMapping) = None"
    by (simp add: keys_apiMapping spec_accepts_def)
  have a: "url_pathname unrouted_request \<notin> {''/'', ''/index.html'', ''/robots.txt''}"
    by (simp add: p)
  from n have b: "\<forall>prefix \<in> set (Object_keys apiMapping). \<not> spec_accepts (url_pathname unrouted_request) prefix"
    unfolding p by (simp add: find_None_iff)
  from unrouted_path_gives_404[OF a b, of fetch_created] p n show ?thesis by blast
qed

text \<open>
  Claim C5.  Whenever the outbound call of a request throws, for whatever reason, the
  handler returns exactly the response with status 500 and body
  \<open>Internal Server Error\<close>, and that call is the only one issued: nothing is retried.
\<close>

theorem upstream_failure_gives_500:
  assumes "call \<in> set (snd (handler fetch request))" and "fetch call = Inl error"
  shows "handler fetch request =
     (Inr \<lparr>status = 500, statusText = [],
           headers = [(''Content-Type'', ''text/plain;charset=UTF-8'')],
           body = Some ''Internal Server Error''\<rparr>, [call])"
  unfolding handler_with_call[OF assms(1)] assms(2) by simp

theorem upstream_failure_gives_500_witness:
  "example_call \<in> set (snd (handler fetch_throws example_request))
   \<and> fetch_throws example_call = Inl (OtherError ''connection refused'')
   \<and> handler fetch_throws example_request =
     (Inr \<lparr>status = 500, statusText = [],
           headers = [(''Content-Type'', ''text/plain;charset=UTF-8'')],
           body = Some ''Internal Server Error''\<rparr>, [example_call])"
proof -
  have "snd (handler fetch_throws example_request) = [example_call]"
    by (rule example_request_calls)
  then have a: "example_call \<in> set (snd (handler fetch_throws example_request))"
    by simp
  have b: "fetch_throws example_call = Inl (OtherError ''connection refused'')"
    by (simp add: fetch_throws_def)
  from upstream_failure_gives_500[OF a b] a b show ?thesis by blast
qed

text \<open>
  Claim C6, evaluated on the code.  The claim asks that every successful upstream
  response is relayed with its status code, and the comments on lines 107 and 116 say
  that the response received from the target is returned.  When \<^verbatim>\<open>fetch\<close> resolves with
  status 999, a status the \<^verbatim>\<open>Response\<close> constructor does not take, the constructor on line
  117 throws a \<^verbatim>\<open>RangeError\<close> inside the \<^verbatim>\<open>try\<close> block and the client gets the fixed 500
  response of the \<^verbatim>\<open>catch\<close> clause instead of the upstream's status.
\<close>

theorem upstream_status_999_gives_500:
  "snd (handler fetch_999 example_request) = [example_call]
   \<and> fetch_999 example_call = Inr upstream_999
   \<and> status upstream_999 = 999
   \<and> fst (handler fetch_999 example_request) =
       Inr \<lparr>status = 500, statusText = [],
            headers = [(''Content-Type'', ''text/plain;charset=UTF-8'')],
            body = Some ''Internal Server Error''\<rparr>"
proof -
  have calls: "snd (handler fetch_999 example_request) = [example_call]"
    by (rule example_request_calls)
  then have mem: "example_call \<in> set (snd (handler fetch_999 example_request))"
    by simp
  have up: "fetch_999 example_call = Inr upstream_999"
    by (simp add: fetch_999_def)
  have st: "status upstream_999 = 999"
    by (simp add: upstream_999_def)
  have "handler fetch_999 example_request =
     (Inr \<lparr>status = 500, statusText = [],
           headers = [(''Content-Type'', ''text/plain;charset=UTF-8'')],
           body = Some ''Internal Server Error''\<rparr>, [example_call])"
    by (rule rejected_upstream_gives_500[OF mem up]) (simp_all add: st)
  with calls up st show ?thesis by simp
qed

text \<open>
  Claim C7, as stated, fails on the branches that do not relay: the static page and the
  404 response are built without any of the three headers (lines 34-37 and 54 pass no
  such header to the constructor).
\<close>

theorem static_page_lacks_security_headers:
  "handler fetch_created root_request =
     (Inr \<lparr>status = 200, statusText = [],
           headers = [(''Content-Type'', ''text/html; charset=utf-8'')],
           body = Some ''Service is running!''\<rparr>, [])
   \<and> Headers_get [(''Content-Type'', ''text/html; charset=utf-8'')] ''X-Content-Type-Options'' = None
   \<and> Headers_get [(''Content-Type'', ''text/html; charset=utf-8'')] ''X-Frame-Options'' = None
   \<and> Headers_get [(''Content-Type'', ''text/html; charset=utf-8'')] ''Referrer-Policy'' = None
   \<and> handler fetch_created unrouted_request =
     (Inr \<lparr>status = 404, statusText = [],
           headers = [(''Content-Type'', ''text/plain;charset=UTF-8'')],
           body = Some ''Not Found''\<rparr>, [])
   \<and> Headers_get [(''Content-Type'', ''text/plain;charset=UTF-8'')] ''X-Content-Type-Options'' = None
   \<and> Headers_get [(''Content-Type'', ''text/plain;charset=UTF-8'')] ''X-Frame-Options'' = None
   \<and> Headers_get [(''Content-Type'', ''text/plain;charset=UTF-8'')] ''Referrer-Policy'' = None"
proof -
  have root: "handler fetch_created root_request =
     (Inr \<lparr>status = 200, statusText = [],
           headers = [(''Content-Type'', ''text/html; charset=utf-8'')],
           body = Some ''Service is running!''\<rparr>, [])"
    unfolding handler_def by (rule serve_handler_root) (simp add: root_request_def)
  have "extractPrefixAndRest (url_pathname unrouted_request) (Object_keys apiMapping) = (None, None)"
    by (simp add: unrouted_request_def gemini_pro)
  then have unrouted: "handler fetch_created unrouted_request =
     (Inr \<lparr>status = 404, statusText = [],
           headers = [(''Content-Type'', ''text/plain;charset=UTF-8'')],
           body = Some ''Not Found''\<rparr>, [])"
    unfolding handler_def by (intro serve_handler_unmatched) (simp_all add: unrouted_request_def)
  have absent:
    "Headers_get [(''Content-Type'', ''text/html; charset=utf-8'')] ''X-Content-Type-Options'' = None"
    "Headers_get [(''Content-Type'', ''text/html; charset=utf-8'')] ''X-Frame-Options'' = None"
    "Headers_get [(''Content-Type'', ''text/html; charset=utf-8'')] ''Referrer-Policy'' = None"
    "Headers_get [(''Content-Type'', ''text/plain;charset=UTF-8'')] ''X-Content-Type-Options'' = None"
    "Headers_get [(''Content-Type'', ''text/plain;charset=UTF-8'')] ''X-Frame-Options'' = None"
    "Headers_get [(''Content-Type'', ''text/plain;charset=UTF-8'')] ''Referrer-Policy'' = None"
    by (simp_all add: Headers_get_def Headers_has_def values_of_Cons values_of_Nil lower_literals)
  from root unrouted absent show ?thesis by simp
qed

text \<open>
  Claim C7, amended.  Every relayed response, that is, every response to a request whose
  outbound call succeeded with an upstream response that the \<^verbatim>\<open>Response\<close> constructor takes,
  carries \<open>X-Content-Type-Options: nosniff\<close>, \<open>X-Frame-Options: DENY\<close> and
  \<open>Referrer-Policy: no-referrer\<close>, added or overridden by the proxy.
\<close>

theorem relayed_response_security_headers:
  assumes "call \<in> set (snd (handler fetch request))" and "fetch call = Inr upstream"
    and "status upstream = 101 \<or> (200 \<le> status upstream \<and> status upstream \<le> 599)"
    and "reason_phrase (statusText upstream)"
    and "body upstream = None \<or> \<not> null_body_status (status upstream)"
  shows "\<exists>response. fst (handler fetch request) = Inr response \<and>
     Headers_get (headers response) ''X-Content-Type-Options'' = Some ''nosniff'' \<and>
     Headers_get (headers response) ''X-Frame-Options'' = Some ''DENY'' \<and>
     Headers_get (headers response) ''Referrer-Policy'' = Some ''no-referrer''"
proof -
  from relay_accepted[OF assms(3-5)] obtain response where r: "relay upstream = Inr response"
    and h: "\<And>name. Headers_get (headers response) name =
        (if toLowerCase name = ''x-content-type-options'' then Some ''nosniff''
         else if toLowerCase name = ''x-frame-options'' then Some ''DENY''
         else if toLowerCase name = ''referrer-policy'' then Some ''no-referrer''
         else Headers_get (new_Headers (FromHeaders (headers upstream))) name)"
    by blast
  have "fst (handler fetch request) = Inr response"
    unfolding handler_with_call[OF assms(1)] assms(2) by (simp add: r)
  moreover have "Headers_get (headers response) ''X-Content-Type-Options'' = Some ''nosniff''"
    unfolding h by (simp add: lower_literals)
  moreover have "Headers_get (headers response) ''X-Frame-Options'' = Some ''DENY''"
    unfolding h lower_literals by simp
  moreover have "Headers_get (headers response) ''Referrer-Policy'' = Some ''no-referrer''"
    unfolding h lower_literals by simp
  ultimately show ?thesis by blast
qed

theorem relayed_response_security_headers_witness:
  "example_call \<in> set (snd (handler fetch_created example_request))
   \<and> fetch_created example_call = Inr upstream_created
   \<and> (status upstream_created = 101 \<or>
        (200 \<le> status upstream_created \<and> status upstream_created \<le> 599))
   \<and> reason_phrase (statusText upstream_created)
   \<and> (body upstream_created = None \<or> \<not> null_body_status (status upstream_created))
   \<and> (\<exists>response. fst (handler fetch_created example_request) = Inr response \<and>
        Headers_get (headers response) ''X-Content-Type-Options'' = Some ''nosniff'' \<and>
        Headers_get (headers response) ''X-Frame-Options'' = Some ''DENY'' \<and>
        Headers_get (headers response) ''Referrer-Policy'' = Some ''no-referrer'')"
proof -
  have "snd (handler fetch_created example_request) = [example_call]"
    by (rule example_request_calls)
  then have a: "example_call \<in> set (snd (handler fetch_created example_request))"
    by simp
  have b: "fetch_created example_call = Inr upstream_created"
    by (simp add: fetch_created_def)
  have c: "status upstream_created = 101 \<or>
        (200 \<le> status upstream_created \<and> status upstream_created \<le> 599)"
    by (simp add: upstream_created_def)
  have e: "reason_phrase (statusText upstream_created)"
    by code_simp
  have f: "body upstream_created = None \<or> \<not> null_body_status (status upstream_created)"
    by (simp add: upstream_created_def null_body_status_def)
  from relayed_response_security_headers[OF a b c e f] a b c e f show ?thesis by blast
qed

text \<open>
  Claim C9.  A request for \<open>/\<close> or \<open>/index.html\<close>, with GET as with any other
  method, gets status 200, the body \<open>Service is running!\<close> and the content type
  \<open>text/html; charset=utf-8\<close>; a request for \<open>/robots.txt\<close> gets status 200, the
  two-line body \<open>User-agent: *\<close>, \<open>Disallow: /\<close> and the content type
  \<open>text/plain; charset=utf-8\<close>.  Both answers are given before routing: they are the
  same for every route table and every behaviour of \<^verbatim>\<open>fetch\<close>, and no outbound call is
  issued.
\<close>

theorem static_pages_before_routing:
  "(url_pathname request = ''/'' \<or> url_pathname request = ''/index.html'' \<longrightarrow>
      serve_handler mapping fetch request =
        (Inr \<lparr>status = 200, statusText = [],
              headers = [(''Content-Type'', ''text/html; charset=utf-8'')],
              body = Some ''Service is running!''\<rparr>, []))
   \<and> (url_pathname request = ''/robots.txt'' \<longrightarrow>
      serve_handler mapping fetch request =
        (Inr \<lparr>status = 200, statusText = [],
              headers = [(''Content-Type'', ''text/plain; charset=utf-8'')],
              body = Some (''User-agent: *'' @ [CHR 0x0A] @ ''Disallow: /'')\<rparr>, []))"
  using serve_handler_root[of request mapping fetch] serve_handler_robots[of request mapping fetch]
  by blast

theorem static_pages_before_routing_witness:
  "req_method root_request = ''GET'' \<and> url_pathname root_request = ''/''
   \<and> handler fetch_throws root_request =
        (Inr \<lparr>status = 200, statusText = [],
              headers = [(''Content-Type'', ''text/html; charset=utf-8'')],
              body = Some ''Service is running!''\<rparr>, [])
   \<and> url_pathname robots_request = ''/robots.txt''
   \<and> handler fetch_throws robots_request =
        (Inr \<lparr>status = 200, statusText = [],
              headers = [(''Content-Type'', ''text/plain; charset=utf-8'')],
              body = Some (''User-agent: *'' @ [CHR 0x0A] @ ''Disallow: /'')\<rparr>, [])"
proof -
  have a: "req_method root_request = ''GET''" "url_pathname root_request = ''/''"
    by (simp_all add: root_request_def)
  have b: "url_pathname robots_request = ''/robots.txt''"
    by (simp add: robots_request_def)
  from static_pages_before_routing[of root_request apiMapping fetch_throws]
       static_pages_before_routing[of robots_request apiMapping fetch_throws] a b
  show ?thesis unfolding handler_def by blast
qed

end
